theory Spec2Isabelle
  imports Main "HOL-Library.Word"
begin

section \<open>JavaScript strings and truthiness\<close>

text \<open>
  The source is \<^verbatim>\<open>plugins/jenkins-backend/src/service/jenkinsInfoProvider.ts\<close>.
  A string is a list of characters; \<^typ>\<open>char\<close> has eight bits, so the model covers
  the strings whose code units are below 256 (on these the \<^verbatim>\<open>'binary'\<close> encoding of
  \<^verbatim>\<open>Buffer.from\<close> keeps every code unit as one byte). A value of type
  \<^verbatim>\<open>string | undefined\<close> is a \<^typ>\<open>string option\<close>.
\<close>

definition falsy :: "string option \<Rightarrow> bool" where
  \<comment> \<open>\<^verbatim>\<open>!v\<close> for \<^verbatim>\<open>v: string | undefined\<close>: \<^verbatim>\<open>undefined\<close> and the empty string are falsy\<close>
  "falsy v = (case v of None \<Rightarrow> True | Some s \<Rightarrow> s = [])"

definition orElse :: "string option \<Rightarrow> string option \<Rightarrow> string option" where
  \<comment> \<open>\<^verbatim>\<open>a || b\<close>: \<^verbatim>\<open>a\<close> when it is truthy, \<^verbatim>\<open>b\<close> otherwise\<close>
  "orElse a b = (if falsy a then b else a)"

fun indexOf :: "string \<Rightarrow> char \<Rightarrow> nat option" where
  \<comment> \<open>\<^verbatim>\<open>s.indexOf(c)\<close>; \<open>None\<close> stands for \<^verbatim>\<open>-1\<close>\<close>
  "indexOf [] c = None"
| "indexOf (x # xs) c = (if x = c then Some 0 else map_option Suc (indexOf xs c))"

definition substring :: "string \<Rightarrow> nat \<Rightarrow> nat \<Rightarrow> string" where
  \<comment> \<open>\<^verbatim>\<open>s.substring(start, end)\<close>: both indices are clamped to the length, and swapped
      when \<open>start\<close> is the larger\<close>
  "substring s start end =
     (let a = min start (length s); b = min end (length s)
      in take (max a b - min a b) (drop (min a b) s))"

section \<open>Splitting the annotation value\<close>

definition splitJenkinsAndJobName :: "string \<Rightarrow> string option \<times> string" where
  \<comment> \<open>lines 97--110 of \<^verbatim>\<open>getInstance\<close>: the pair \<open>(jenkinsName, jobName)\<close>\<close>
  "splitJenkinsAndJobName jenkinsAndJobName =
     (case indexOf jenkinsAndJobName CHR '':'' of
        None \<Rightarrow> (None, jenkinsAndJobName)
      | Some splitIndex \<Rightarrow>
          (Some (substring jenkinsAndJobName 0 splitIndex),
           substring jenkinsAndJobName (splitIndex + 1) (length jenkinsAndJobName)))"

section \<open>Catalog entities\<close>

text \<open>
  \<^verbatim>\<open>EntityName\<close> and \<^verbatim>\<open>Entity\<close> are declared in \<^verbatim>\<open>@backstage/catalog-model\<close>. Of an
  entity the source reads \<^verbatim>\<open>metadata.annotations\<close> only: an optional mapping from
  strings to strings.
\<close>

datatype entity_name = EntityName string string string
  \<comment> \<open>kind, namespace, name\<close>

datatype entity = Entity (annotations: "(string \<rightharpoonup> string) option")

type_synonym catalog = "entity_name \<Rightarrow> entity option"
  \<comment> \<open>what \<^verbatim>\<open>catalog.getEntityByName\<close> resolves to; \<open>None\<close> is \<^verbatim>\<open>undefined\<close>\<close>

section \<open>Errors\<close>

text \<open>
  Every \<^verbatim>\<open>throw new Error(...)\<close> of the source, named after the taxonomy of the
  specification, with the value its message interpolates. \<open>ConfigFieldMissing key\<close> is
  what the accessors \<^verbatim>\<open>getConfig\<close> and \<^verbatim>\<open>getString\<close> throw.
\<close>

datatype error =
    EntityNotFound entity_name
  | AnnotationMissing entity_name
  | NoDefaultInstance
  | NamedInstanceNotFound string
  | ConfigFieldMissing string

section \<open>The configuration tree\<close>

text \<open>
  Modelled from the spec: the class \<^verbatim>\<open>Config\<close> of \<^verbatim>\<open>@backstage/config\<close> is not among the
  sources. Section 6 of the specification gives its four read-only accessors:
  \<^verbatim>\<open>getConfig(key)\<close> fails if the key is missing, \<^verbatim>\<open>getConfigArray(key)\<close> is the empty
  sequence if absent, \<^verbatim>\<open>getString(key)\<close> fails if missing or empty,
  \<^verbatim>\<open>getOptionalString(key)\<close> is a string or absent. A node holds its string fields,
  its child nodes and its arrays of nodes, each by key.
\<close>

datatype config =
  Config (stringFields: "(string \<times> string) list")
         (configFields: "(string \<times> config) list")
         (arrayFields: "(string \<times> config list) list")

definition getConfig :: "config \<Rightarrow> string \<Rightarrow> error + config" where
  "getConfig c key =
     (case map_of (configFields c) key of
        None \<Rightarrow> Inl (ConfigFieldMissing key)
      | Some sub \<Rightarrow> Inr sub)"

definition getConfigArray :: "config \<Rightarrow> string \<Rightarrow> config list" where
  "getConfigArray c key =
     (case map_of (arrayFields c) key of None \<Rightarrow> [] | Some cs \<Rightarrow> cs)"

definition getOptionalString :: "config \<Rightarrow> string \<Rightarrow> string option" where
  "getOptionalString c key = map_of (stringFields c) key"

definition getString :: "config \<Rightarrow> string \<Rightarrow> error + string" where
  "getString c key =
     (case map_of (stringFields c) key of
        None \<Rightarrow> Inl (ConfigFieldMissing key)
      | Some s \<Rightarrow> if s = [] then Inl (ConfigFieldMissing key) else Inr s)"

section \<open>Base64 of a byte sequence\<close>

text \<open>
  \<^verbatim>\<open>Buffer.from(s, 'binary')\<close> and \<^verbatim>\<open>Buffer.toString('base64')\<close> belong to the Node
  runtime. The first keeps the low eight bits of every code unit; the second is the
  Base64 encoding of RFC 4648, with the standard alphabet and \<open>=\<close> padding.
\<close>

type_synonym byte = "8 word"

definition binaryBytes :: "string \<Rightarrow> byte list" where
  "binaryBytes s = map (\<lambda>c. of_nat (of_char c)) s"

definition binaryString :: "byte list \<Rightarrow> string" where
  \<comment> \<open>\<^verbatim>\<open>buf.toString('binary')\<close>, the inverse of \<open>binaryBytes\<close>\<close>
  "binaryString bs = map (\<lambda>b. char_of (unat b)) bs"

definition base64Alphabet :: string where
  "base64Alphabet = ''ABCDEFGHIJKLMNOPQRSTUVWXYZabcdefghijklmnopqrstuvwxyz0123456789+/''"

definition base64Char :: "nat \<Rightarrow> char" where
  "base64Char i = base64Alphabet ! (i mod 64)"

fun base64Encode :: "byte list \<Rightarrow> string" where
  "base64Encode [] = []"
| "base64Encode [a] =
     [base64Char (unat a div 4), base64Char (unat a mod 4 * 16), CHR ''='', CHR ''='']"
| "base64Encode [a, b] =
     [base64Char (unat a div 4), base64Char (unat a mod 4 * 16 + unat b div 16),
      base64Char (unat b mod 16 * 4), CHR ''='']"
| "base64Encode (a # b # c # rest) =
     [base64Char (unat a div 4), base64Char (unat a mod 4 * 16 + unat b div 16),
      base64Char (unat b mod 16 * 4 + unat c div 64), base64Char (unat c mod 64)]
     @ base64Encode rest"

text \<open>
  The decoder is not part of the source: it is the inverse the round trip is stated
  with. It reads groups of four characters; only the last group may be padded.
\<close>

definition base64Index :: "char \<Rightarrow> nat option" where
  "base64Index c = indexOf base64Alphabet c"

definition base64DecodeGroup :: "char \<Rightarrow> char \<Rightarrow> char \<Rightarrow> char \<Rightarrow> byte list option" where
  "base64DecodeGroup c1 c2 c3 c4 =
     (case (base64Index c1, base64Index c2) of
        (Some i1, Some i2) \<Rightarrow>
          if c3 = CHR ''='' \<and> c4 = CHR ''='' then Some [of_nat (i1 * 4 + i2 div 16)]
          else (case base64Index c3 of
                  None \<Rightarrow> None
                | Some i3 \<Rightarrow>
                    if c4 = CHR ''=''
                    then Some [of_nat (i1 * 4 + i2 div 16), of_nat (i2 mod 16 * 16 + i3 div 4)]
                    else (case base64Index c4 of
                            None \<Rightarrow> None
                          | Some i4 \<Rightarrow>
                              Some [of_nat (i1 * 4 + i2 div 16),
                                    of_nat (i2 mod 16 * 16 + i3 div 4),
                                    of_nat (i3 mod 4 * 64 + i4)]))
      | _ \<Rightarrow> None)"

fun base64Decode :: "string \<Rightarrow> byte list option" where
  "base64Decode [] = Some []"
| "base64Decode (c1 # c2 # c3 # c4 # rest) =
     (case base64DecodeGroup c1 c2 c3 c4 of
        None \<Rightarrow> None
      | Some bs \<Rightarrow>
          if length bs < 3 \<and> rest \<noteq> [] then None
          else map_option (\<lambda>r. bs @ r) (base64Decode rest))"
| "base64Decode _ = None"

definition splitFirstColon :: "string \<Rightarrow> string \<times> string" where
  \<comment> \<open>what a reader of a Basic credential does: the text before the first colon, and the
      text after it\<close>
  "splitFirstColon s =
     (takeWhile (\<lambda>c. c \<noteq> CHR '':'') s, drop 1 (dropWhile (\<lambda>c. c \<noteq> CHR '':'') s))"

definition readBasicAuthorization :: "string \<Rightarrow> (string \<times> string) option" where
  \<comment> \<open>the receiving side of the header: drop \<open>Basic \<close>, decode, split at the first colon\<close>
  "readBasicAuthorization v =
     (if take 6 v = ''Basic ''
      then map_option (\<lambda>bs. splitFirstColon (binaryString bs)) (base64Decode (drop 6 v))
      else None)"

section \<open>DefaultJenkinsInfoProvider\<close>

record JenkinsInfo =
  baseUrl :: string
  headers :: "(string \<times> string) list option"
  jobName :: string

text \<open>
  The record fields \<open>baseUrl\<close> and \<open>jobName\<close> are constants from here on, so the
  local variables of the same names carry a prime.
\<close>

record getInstanceOptions =
  entityRef :: entity_name
  jobNameOption :: "string option"
  \<comment> \<open>the field \<^verbatim>\<open>jobName?: string\<close> of the argument of \<^verbatim>\<open>getInstance\<close>\<close>

definition OLD_JENKINS_ANNOTATION :: string where
  "OLD_JENKINS_ANNOTATION = ''jenkins.io/github-folder''"

definition NEW_JENKINS_ANNOTATION :: string where
  "NEW_JENKINS_ANNOTATION = ''jenkins.io/job-slug''"

definition DEFAULT_JENKINS_NAME :: string where
  "DEFAULT_JENKINS_NAME = ''default''"

definition annotationAt :: "entity \<Rightarrow> string \<Rightarrow> string option" where
  \<comment> \<open>\<^verbatim>\<open>entity.metadata.annotations?.[key]\<close>\<close>
  "annotationAt e key = (case annotations e of None \<Rightarrow> None | Some m \<Rightarrow> m key)"

definition getEntityAnnotationValue :: "entity \<Rightarrow> string option" where
  "getEntityAnnotationValue e =
     orElse (annotationAt e OLD_JENKINS_ANNOTATION) (annotationAt e NEW_JENKINS_ANNOTATION)"

fun filterByName :: "string \<Rightarrow> config list \<Rightarrow> error + config list" where
  \<comment> \<open>\<^verbatim>\<open>.filter(c => c.getString('name') === n)\<close>: the callback runs on every entry in
      array order, and what it throws ends the call\<close>
  "filterByName n [] = Inr []"
| "filterByName n (c # cs) =
     (case getString c ''name'' of
        Inl e \<Rightarrow> Inl e
      | Inr s \<Rightarrow>
          (case filterByName n cs of
             Inl e \<Rightarrow> Inl e
           | Inr r \<Rightarrow> Inr (if s = n then c # r else r)))"

definition defaultInstanceLookup :: "config \<Rightarrow> error + config" where
  \<comment> \<open>lines 154--175: the branch taken when no name, or the default name, is asked for\<close>
  "defaultInstanceLookup jenkinsConfig =
     (case filterByName DEFAULT_JENKINS_NAME (getConfigArray jenkinsConfig ''instances'') of
        Inl e \<Rightarrow> Inl e
      | Inr (namedInstanceConfig # _) \<Rightarrow> Inr namedInstanceConfig
      | Inr [] \<Rightarrow>
          (let baseUrl' = getOptionalString jenkinsConfig ''baseUrl'';
               username = getOptionalString jenkinsConfig ''username'';
               apiKey = getOptionalString jenkinsConfig ''apiKey''
           in if falsy baseUrl' \<or> falsy username \<or> falsy apiKey
              then Inl NoDefaultInstance
              else Inr jenkinsConfig))"

definition namedInstanceLookup :: "string \<Rightarrow> config \<Rightarrow> error + config" where
  \<comment> \<open>lines 178--189: the branch taken when a name is provided\<close>
  "namedInstanceLookup jenkinsName jenkinsConfig =
     (case filterByName jenkinsName (getConfigArray jenkinsConfig ''instances'') of
        Inl e \<Rightarrow> Inl e
      | Inr [] \<Rightarrow> Inl (NamedInstanceNotFound jenkinsName)
      | Inr (namedInstanceConfig # _) \<Rightarrow> Inr namedInstanceConfig)"

datatype lookup_path = DefaultInstancePath | NamedInstancePath string

definition lookupPath :: "string option \<Rightarrow> lookup_path" where
  \<comment> \<open>the test of line 153, \<^verbatim>\<open>!jenkinsName || jenkinsName === DEFAULT_JENKINS_NAME\<close>\<close>
  "lookupPath jenkinsName =
     (case jenkinsName of
        None \<Rightarrow> DefaultInstancePath
      | Some n \<Rightarrow>
          if falsy jenkinsName \<or> n = DEFAULT_JENKINS_NAME then DefaultInstancePath
          else NamedInstancePath n)"

definition getInstanceConfig :: "string option \<Rightarrow> config \<Rightarrow> error + config" where
  "getInstanceConfig jenkinsName rootConfig =
     (case getConfig rootConfig ''jenkins'' of
        Inl e \<Rightarrow> Inl e
      | Inr jenkinsConfig \<Rightarrow>
          (case lookupPath jenkinsName of
             DefaultInstancePath \<Rightarrow> defaultInstanceLookup jenkinsConfig
           | NamedInstancePath n \<Rightarrow> namedInstanceLookup n jenkinsConfig))"

definition basicCredentials :: "string \<Rightarrow> string \<Rightarrow> string" where
  \<comment> \<open>lines 121--123: \<^verbatim>\<open>Buffer.from(`${username}:${apiKey}`, 'binary').toString('base64')\<close>\<close>
  "basicCredentials username apiKey = base64Encode (binaryBytes (username @ '':'' @ apiKey))"

definition jenkinsInfoOf :: "config \<Rightarrow> string \<Rightarrow> error + JenkinsInfo" where
  \<comment> \<open>lines 97--131 of \<^verbatim>\<open>getInstance\<close>: from the annotation value to the result\<close>
  "jenkinsInfoOf rootConfig jenkinsAndJobName =
     (case splitJenkinsAndJobName jenkinsAndJobName of
        (jenkinsName, jobName') \<Rightarrow>
          (case getInstanceConfig jenkinsName rootConfig of
             Inl e \<Rightarrow> Inl e
           | Inr instanceConfig \<Rightarrow>
               (case getString instanceConfig ''baseUrl'' of
                  Inl e \<Rightarrow> Inl e
                | Inr baseUrl' \<Rightarrow>
                    (case getString instanceConfig ''username'' of
                       Inl e \<Rightarrow> Inl e
                     | Inr username \<Rightarrow>
                         (case getString instanceConfig ''apiKey'' of
                            Inl e \<Rightarrow> Inl e
                          | Inr apiKey \<Rightarrow>
                              Inr \<lparr>baseUrl = baseUrl',
                                   headers = Some [(''Authorization'',
                                     ''Basic '' @ basicCredentials username apiKey)],
                                   jobName = jobName'\<rparr>)))))"

definition getInstance :: "catalog \<Rightarrow> config \<Rightarrow> getInstanceOptions \<Rightarrow> error + JenkinsInfo" where
  "getInstance catalog rootConfig opt =
     (case catalog (entityRef opt) of
        None \<Rightarrow> Inl (EntityNotFound (entityRef opt))
      | Some entity \<Rightarrow>
          (let jenkinsAndJobName = getEntityAnnotationValue entity
           in if falsy jenkinsAndJobName then Inl (AnnotationMissing (entityRef opt))
              else (case jenkinsAndJobName of
                      None \<Rightarrow> Inl (AnnotationMissing (entityRef opt))
                    | Some v \<Rightarrow> jenkinsInfoOf rootConfig v)))"

section \<open>DummyJenkinsInfoProvider\<close>

definition dummyGetInstance :: "getInstanceOptions \<Rightarrow> error + JenkinsInfo" where
  "dummyGetInstance opt =
     Inr \<lparr>baseUrl = ''https://jenkins.internal.example.com/'',
          headers = Some [(''Authorization'',
            ''Basic YWRtaW46MTFlYzI1NmU0Mzg1MDFjM2Y1Yzc2Yjc1MWE3ZTQ3YWY4Mw=='')],
          jobName = ''department-A/team-1/project-foo''\<rparr>"

section \<open>Example inputs\<close>

text \<open>
  The shapes of configuration and entity that the scenarios of the specification use:
  an entry of \<^verbatim>\<open>jenkins.instances\<close>, a flat \<^verbatim>\<open>jenkins\<close> node, a root holding the
  \<^verbatim>\<open>jenkins\<close> node, an entity with the given annotations, and a catalog that resolves
  every reference to one entity.
\<close>

definition instanceEntry :: "string \<Rightarrow> string \<Rightarrow> string \<Rightarrow> string \<Rightarrow> config" where
  "instanceEntry n url user key =
     Config [(''name'', n), (''baseUrl'', url), (''username'', user), (''apiKey'', key)] [] []"

definition unnamedEntry :: "string \<Rightarrow> string \<Rightarrow> string \<Rightarrow> config" where
  "unnamedEntry url user key =
     Config [(''baseUrl'', url), (''username'', user), (''apiKey'', key)] [] []"

definition jenkinsNode :: "(string \<times> string) list \<Rightarrow> config list \<Rightarrow> config" where
  "jenkinsNode flat instances = Config flat [] [(''instances'', instances)]"

definition rootOf :: "config \<Rightarrow> config" where
  "rootOf jenkinsConfig = Config [] [(''jenkins'', jenkinsConfig)] []"

definition annotated :: "(string \<times> string) list \<Rightarrow> entity" where
  "annotated kvs = Entity (Some (map_of kvs))"

definition catalogOf :: "entity \<Rightarrow> catalog" where
  "catalogOf e ref = Some e"

definition someRef :: entity_name where
  "someRef = EntityName ''component'' ''default'' ''service-a''"

section \<open>Properties of the split\<close>

lemma indexOf_None_iff: "indexOf s c = None \<longleftrightarrow> c \<notin> set s"
  by (induction s) auto

lemma indexOf_Some_takeWhile:
  "c \<in> set s \<Longrightarrow> indexOf s c = Some (length (takeWhile (\<lambda>x. x \<noteq> c) s))"
  by (induction s) auto

lemma takeWhile_neq_shorter:
  "c \<in> set s \<Longrightarrow> length (takeWhile (\<lambda>x. x \<noteq> c) s) < length s"
  by (induction s) auto

lemma substring_prefix: "n \<le> length s \<Longrightarrow> substring s 0 n = take n s"
  by (simp add: substring_def Let_def min_def)

lemma substring_suffix: "n \<le> length s \<Longrightarrow> substring s n (length s) = drop n s"
  by (simp add: substring_def Let_def min_def max_def)

lemma split_no_colon:
  "CHR '':'' \<notin> set v \<Longrightarrow> splitJenkinsAndJobName v = (None, v)"
  using indexOf_None_iff [of v "CHR '':''"] by (simp add: splitJenkinsAndJobName_def)

lemma split_colon:
  assumes "CHR '':'' \<in> set v"
  shows "splitJenkinsAndJobName v =
           (Some (takeWhile (\<lambda>x. x \<noteq> CHR '':'') v),
            drop 1 (dropWhile (\<lambda>x. x \<noteq> CHR '':'') v))"
proof -
  let ?p = "\<lambda>x. x \<noteq> CHR '':''"
  let ?n = "length (takeWhile ?p v)"
  have idx: "indexOf v CHR '':'' = Some ?n"
    using assms by (rule indexOf_Some_takeWhile)
  have lt: "?n < length v"
    using assms by (rule takeWhile_neq_shorter)
  have pre: "take ?n v = takeWhile ?p v"
    by (rule takeWhile_eq_take [symmetric])
  have "drop (Suc ?n) v = drop 1 (drop ?n v)"
    by simp
  also have "drop ?n v = dropWhile ?p v"
    by (rule dropWhile_eq_drop [symmetric])
  finally have post: "drop (Suc ?n) v = drop 1 (dropWhile ?p v)" .
  show ?thesis
    using lt by (simp add: splitJenkinsAndJobName_def idx substring_prefix substring_suffix pre post)
qed

lemma count_one_split:
  assumes "count_list v c = 1"
  shows "c \<notin> set (drop 1 (dropWhile (\<lambda>x. x \<noteq> c) v))"
  using assms
proof (induction v)
  case Nil
  then show ?case by simp
next
  case (Cons x xs)
  show ?case
  proof (cases "x = c")
    case True
    with Cons.prems have "count_list xs c = 0" by simp
    then have "c \<notin> set xs" by (simp add: count_list_0_iff)
    with True show ?thesis by simp
  next
    case False
    with Cons show ?thesis by simp
  qed
qed

text \<open>
  C5. An annotation value with exactly one colon is split at that colon: the instance
  identity is the text before it, the job name the text after it, neither holds a colon,
  and joining the two with a colon gives the value back. A value with no colon has no
  instance identity and is the job name as a whole.
\<close>

theorem split_one_colon_rejoin:
  "(count_list v CHR '':'' = 1 \<longrightarrow>
      (\<exists>i j. splitJenkinsAndJobName v = (Some i, j) \<and> i @ '':'' @ j = v \<and>
             i = takeWhile (\<lambda>x. x \<noteq> CHR '':'') v \<and>
             CHR '':'' \<notin> set i \<and> CHR '':'' \<notin> set j)) \<and>
   (count_list v CHR '':'' = 0 \<longrightarrow> splitJenkinsAndJobName v = (None, v))"
proof (intro conjI impI)
  assume one: "count_list v CHR '':'' = 1"
  let ?p = "\<lambda>x. x \<noteq> CHR '':''"
  have mem: "CHR '':'' \<in> set v"
    using one count_list_0_iff [of v "CHR '':''"] by auto
  have hd: "dropWhile ?p v \<noteq> [] \<and> hd (dropWhile ?p v) = CHR '':''"
    using mem hd_dropWhile [of ?p v] by auto
  then have "dropWhile ?p v = CHR '':'' # drop 1 (dropWhile ?p v)"
    by (cases "dropWhile ?p v") auto
  then have join: "takeWhile ?p v @ '':'' @ drop 1 (dropWhile ?p v) = v"
    using takeWhile_dropWhile_id [of ?p v] by simp
  have left: "CHR '':'' \<notin> set (takeWhile ?p v)"
    using set_takeWhileD by fastforce
  show "\<exists>i j. splitJenkinsAndJobName v = (Some i, j) \<and> i @ '':'' @ j = v \<and>
             i = takeWhile ?p v \<and> CHR '':'' \<notin> set i \<and> CHR '':'' \<notin> set j"
    using split_colon [OF mem] join left count_one_split [OF one] by simp
next
  assume "count_list v CHR '':'' = 0"
  then have "CHR '':'' \<notin> set v" by (simp add: count_list_0_iff)
  then show "splitJenkinsAndJobName v = (None, v)" by (rule split_no_colon)
qed

theorem split_one_colon_rejoin_witness:
  "count_list ''team-1:proj-foo'' CHR '':'' = 1 \<and>
   splitJenkinsAndJobName ''team-1:proj-foo'' = (Some ''team-1'', ''proj-foo'') \<and>
   ''team-1'' @ '':'' @ ''proj-foo'' = ''team-1:proj-foo'' \<and>
   count_list ''proj-bar'' CHR '':'' = 0 \<and>
   splitJenkinsAndJobName ''proj-bar'' = (None, ''proj-bar'')"
  using split_one_colon_rejoin [of "''team-1:proj-foo''"] split_one_colon_rejoin [of "''proj-bar''"]
  by (simp add: splitJenkinsAndJobName_def substring_def)

section \<open>Evaluating the definitions on concrete inputs\<close>

lemmas example_defs = instanceEntry_def unnamedEntry_def jenkinsNode_def rootOf_def
  annotated_def catalogOf_def someRef_def

lemmas config_defs = getConfig_def getConfigArray_def getOptionalString_def getString_def
  getInstanceConfig_def defaultInstanceLookup_def namedInstanceLookup_def lookupPath_def
  DEFAULT_JENKINS_NAME_def falsy_def

lemmas instance_defs = getInstance_def jenkinsInfoOf_def getEntityAnnotationValue_def
  orElse_def annotationAt_def OLD_JENKINS_ANNOTATION_def NEW_JENKINS_ANNOTATION_def
  splitJenkinsAndJobName_def substring_def

lemmas base64_defs = basicCredentials_def binaryBytes_def base64Char_def base64Alphabet_def
  readBasicAuthorization_def base64DecodeGroup_def base64Index_def binaryString_def
  splitFirstColon_def char_of_def bit_Suc_0_iff

section \<open>Base64: decoding inverts encoding\<close>

lemma alphabet_length: "length base64Alphabet = 64"
  by (simp add: base64Alphabet_def)

lemma alphabet_distinct: "distinct base64Alphabet"
  by (simp add: base64Alphabet_def)

lemma alphabet_no_pad: "CHR ''='' \<notin> set base64Alphabet"
  by (simp add: base64Alphabet_def)

lemma indexOf_nth: "distinct xs \<Longrightarrow> i < length xs \<Longrightarrow> indexOf xs (xs ! i) = Some i"
proof (induction xs arbitrary: i)
  case Nil
  then show ?case by simp
next
  case (Cons x xs)
  then show ?case by (cases i) auto
qed

lemma base64Index_Char: "i < 64 \<Longrightarrow> base64Index (base64Char i) = Some i"
  by (simp add: base64Index_def base64Char_def indexOf_nth alphabet_distinct alphabet_length)

lemma base64Char_no_pad: "base64Char i \<noteq> CHR ''=''"
proof -
  have "base64Char i \<in> set base64Alphabet"
    by (simp add: base64Char_def alphabet_length)
  then show ?thesis using alphabet_no_pad by auto
qed

lemma byte_bound: "unat (a :: byte) < 256"
  using unsigned_less [of a, where ?'a = nat] by simp

lemma binaryString_binaryBytes: "binaryString (binaryBytes s) = s"
  by (induction s) (simp_all add: binaryString_def binaryBytes_def unat_of_nat)

text \<open>The four sextets of a group of three bytes \<open>x\<close>, \<open>y\<close>, \<open>z\<close>, and how the bytes
  come back from them.\<close>

lemma sextet2_bound: "(y::nat) < 256 \<Longrightarrow> x mod 4 * 16 + y div 16 < 64"
proof -
  assume "y < 256"
  then have "y div 16 < 16" by simp
  moreover have "x mod 4 < 4" by simp
  ultimately show ?thesis by linarith
qed

lemma sextet3_bound: "(z::nat) < 256 \<Longrightarrow> y mod 16 * 4 + z div 64 < 64"
proof -
  assume "z < 256"
  then have "z div 64 < 4" by simp
  moreover have "y mod 16 < 16" by simp
  ultimately show ?thesis by linarith
qed

lemma sextet2_bound_last: "(x::nat) mod 4 * 16 < 64"
  using sextet2_bound [of 0 x] by simp

lemma sextet3_bound_last: "(y::nat) mod 16 * 4 < 64"
  using sextet3_bound [of 0 y] by simp

lemma first_byte_back: "(y::nat) < 256 \<Longrightarrow> x div 4 * 4 + (x mod 4 * 16 + y div 16) div 16 = x"
proof -
  assume "y < 256"
  then have "y div 16 < 16" by simp
  then have "(x mod 4 * 16 + y div 16) div 16 = x mod 4" by simp
  then show ?thesis by simp
qed

lemma second_byte_back:
  assumes "(y::nat) < 256" and "(z::nat) < 256"
  shows "(x mod 4 * 16 + y div 16) mod 16 * 16 + (y mod 16 * 4 + z div 64) div 4 = y"
proof -
  from assms have "z div 64 < 4" by simp
  then have a: "(y mod 16 * 4 + z div 64) div 4 = y mod 16" by simp
  from assms have "y div 16 < 16" by simp
  then have b: "(x mod 4 * 16 + y div 16) mod 16 = y div 16" by simp
  show ?thesis by (simp only: a b div_mult_mod_eq)
qed

lemma third_byte_back:
  assumes "(z::nat) < 256"
  shows "(y mod 16 * 4 + z div 64) mod 4 * 64 + z mod 64 = z"
proof -
  from assms have "z div 64 < 4" by simp
  then have "(y mod 16 * 4 + z div 64) mod 4 = z div 64" by simp
  then show ?thesis by simp
qed

lemma decode_group_of_three:
  assumes "x < 256" "y < 256" "z < 256"
  shows "base64DecodeGroup (base64Char (x div 4)) (base64Char (x mod 4 * 16 + y div 16))
      (base64Char (y mod 16 * 4 + z div 64)) (base64Char (z mod 64))
    = Some [of_nat x, of_nat y, of_nat z]"
proof -
  define i1 where "i1 = x div 4"
  define i2 where "i2 = x mod 4 * 16 + y div 16"
  define i3 where "i3 = y mod 16 * 4 + z div 64"
  define i4 where "i4 = z mod 64"
  have idx: "base64Index (base64Char i1) = Some i1" "base64Index (base64Char i2) = Some i2"
    "base64Index (base64Char i3) = Some i3" "base64Index (base64Char i4) = Some i4"
    using assms
    by (simp_all add: i1_def i2_def i3_def i4_def base64Index_Char sextet2_bound sextet3_bound)
  have e1: "i1 * 4 + i2 div 16 = x"
    unfolding i1_def i2_def using assms(2) by (rule first_byte_back)
  have e2: "i2 mod 16 * 16 + i3 div 4 = y"
    unfolding i2_def i3_def using assms(2,3) by (rule second_byte_back)
  have e3: "i3 mod 4 * 64 + i4 = z"
    unfolding i3_def i4_def using assms(3) by (rule third_byte_back)
  have "base64DecodeGroup (base64Char i1) (base64Char i2) (base64Char i3) (base64Char i4)
      = Some [of_nat x, of_nat y, of_nat z]"
    by (simp add: base64DecodeGroup_def idx base64Char_no_pad e1 e2 e3)
  then show ?thesis
    by (simp only: i1_def i2_def i3_def i4_def)
qed

lemma decode_group_of_two:
  assumes "x < 256" "y < 256"
  shows "base64DecodeGroup (base64Char (x div 4)) (base64Char (x mod 4 * 16 + y div 16))
      (base64Char (y mod 16 * 4)) CHR ''='' = Some [of_nat x, of_nat y]"
proof -
  define i1 where "i1 = x div 4"
  define i2 where "i2 = x mod 4 * 16 + y div 16"
  define i3 where "i3 = y mod 16 * 4"
  have idx: "base64Index (base64Char i1) = Some i1" "base64Index (base64Char i2) = Some i2"
    "base64Index (base64Char i3) = Some i3"
    using assms
    by (simp_all add: i1_def i2_def i3_def base64Index_Char sextet2_bound sextet3_bound_last)
  have e1: "i1 * 4 + i2 div 16 = x"
    unfolding i1_def i2_def using assms(2) by (rule first_byte_back)
  have e2: "i2 mod 16 * 16 + i3 div 4 = y"
    unfolding i2_def i3_def using second_byte_back [of y 0 x] assms(2) by simp
  have "base64DecodeGroup (base64Char i1) (base64Char i2) (base64Char i3) CHR ''=''
      = Some [of_nat x, of_nat y]"
    by (simp add: base64DecodeGroup_def idx base64Char_no_pad e1 e2)
  then show ?thesis
    by (simp only: i1_def i2_def i3_def)
qed

lemma decode_group_of_one:
  assumes "x < 256"
  shows "base64DecodeGroup (base64Char (x div 4)) (base64Char (x mod 4 * 16))
      CHR ''='' CHR ''='' = Some [of_nat x]"
proof -
  define i1 where "i1 = x div 4"
  define i2 where "i2 = x mod 4 * 16"
  have idx: "base64Index (base64Char i1) = Some i1" "base64Index (base64Char i2) = Some i2"
    using assms by (simp_all add: i1_def i2_def base64Index_Char sextet2_bound_last)
  have e1: "i1 * 4 + i2 div 16 = x"
    unfolding i1_def i2_def using first_byte_back [of 0 x] by simp
  have "base64DecodeGroup (base64Char i1) (base64Char i2) CHR ''='' CHR ''='' = Some [of_nat x]"
    by (simp add: base64DecodeGroup_def idx e1)
  then show ?thesis
    by (simp only: i1_def i2_def)
qed

lemma base64Decode_Encode: "base64Decode (base64Encode bs) = Some bs"
proof (induction bs rule: base64Encode.induct)
  case 1
  then show ?case by simp
next
  case (2 a)
  then show ?case
    using decode_group_of_one [OF byte_bound [of a]] by simp
next
  case (3 a b)
  then show ?case
    using decode_group_of_two [OF byte_bound [of a] byte_bound [of b]] by simp
next
  case (4 a b c rest)
  then show ?case
    using decode_group_of_three [OF byte_bound [of a] byte_bound [of b] byte_bound [of c]]
    by simp
qed

lemma splitFirstColon_join:
  "CHR '':'' \<notin> set u \<Longrightarrow> splitFirstColon (u @ '':'' @ k) = (u, k)"
  by (induction u) (auto simp: splitFirstColon_def)

lemma readBasicAuthorization_credentials:
  "readBasicAuthorization (''Basic '' @ basicCredentials u k)
     = Some (splitFirstColon (u @ '':'' @ k))"
  by (simp add: readBasicAuthorization_def basicCredentials_def base64Decode_Encode
      binaryString_binaryBytes)

text \<open>The header that the dummy provider has as a constant is the Basic header of the
  user \<open>admin\<close>: the encoder above gives the very text that stands in the source.\<close>

lemma dummy_header_is_basic:
  "dummyGetInstance opt =
     Inr \<lparr>baseUrl = ''https://jenkins.internal.example.com/'',
          headers = Some [(''Authorization'',
            ''Basic '' @ basicCredentials ''admin'' ''11ec256e438501c3f5c76b751a7e47af83'')],
          jobName = ''department-A/team-1/project-foo''\<rparr>"
  by (simp add: dummyGetInstance_def base64_defs)

section \<open>Reading the configuration\<close>

lemma getString_eq_Inr:
  "getString c key = Inr s \<longleftrightarrow> getOptionalString c key = Some s \<and> s \<noteq> []"
  by (auto simp: getString_def getOptionalString_def split: option.splits)

lemma getString_falsy:
  "falsy (getOptionalString c key) \<Longrightarrow> getString c key = Inl (ConfigFieldMissing key)"
  by (auto simp: getString_def getOptionalString_def falsy_def split: option.splits)

lemma getString_truthy:
  "\<not> falsy (getOptionalString c key) \<Longrightarrow>
   \<exists>s. getOptionalString c key = Some s \<and> s \<noteq> [] \<and> getString c key = Inr s"
  by (auto simp: getString_def getOptionalString_def falsy_def split: option.splits)

lemma getString_error: "getString c key = Inl e \<Longrightarrow> e = ConfigFieldMissing key"
  by (auto simp: getString_def split: option.splits if_splits)

lemma filterByName_named:
  "\<forall>c\<in>set cs. \<not> falsy (getOptionalString c ''name'') \<Longrightarrow>
   filterByName n cs = Inr (filter (\<lambda>c. getOptionalString c ''name'' = Some n) cs)"
proof (induction cs)
  case Nil
  then show ?case by simp
next
  case (Cons c cs)
  from Cons.prems obtain s
    where s: "getOptionalString c ''name'' = Some s" "getString c ''name'' = Inr s"
    using getString_truthy [of c "''name''"] by auto
  from Cons have "filterByName n cs = Inr (filter (\<lambda>c. getOptionalString c ''name'' = Some n) cs)"
    by simp
  with s show ?case by simp
qed

lemma filterByName_unnamed:
  "c \<in> set cs \<Longrightarrow> falsy (getOptionalString c ''name'') \<Longrightarrow>
   filterByName n cs = Inl (ConfigFieldMissing ''name'')"
proof (induction cs)
  case Nil
  then show ?case by simp
next
  case (Cons d ds)
  show ?case
  proof (cases "falsy (getOptionalString d ''name'')")
    case True
    then show ?thesis by (simp add: getString_falsy)
  next
    case False
    with Cons.prems have "c \<in> set ds" by auto
    with Cons have "filterByName n ds = Inl (ConfigFieldMissing ''name'')" by simp
    then show ?thesis by (auto split: sum.splits dest: getString_error)
  qed
qed

lemma filterByName_error: "filterByName n cs = Inl e \<Longrightarrow> e = ConfigFieldMissing ''name''"
proof (induction cs arbitrary: e)
  case Nil
  then show ?case by simp
next
  case (Cons c cs)
  then show ?case
    by (auto split: sum.splits dest: getString_error)
qed

lemma first_of_filter:
  "(case filter P xs of [] \<Rightarrow> a | x # _ \<Rightarrow> f x) =
   (case List.find P xs of None \<Rightarrow> a | Some x \<Rightarrow> f x)"
  by (induction xs) auto

lemma find_first:
  "P x \<Longrightarrow> \<forall>y\<in>set ys. \<not> P y \<Longrightarrow> List.find P (ys @ x # zs) = Some x"
  by (induction ys) auto

lemma lookupPath_default:
  "jenkinsName = None \<or> jenkinsName = Some ''default'' \<Longrightarrow>
   lookupPath jenkinsName = DefaultInstancePath"
  by (auto simp: lookupPath_def DEFAULT_JENKINS_NAME_def)

lemma lookupPath_named:
  "n \<noteq> [] \<Longrightarrow> n \<noteq> ''default'' \<Longrightarrow> lookupPath (Some n) = NamedInstancePath n"
  by (simp add: lookupPath_def DEFAULT_JENKINS_NAME_def falsy_def)

lemma defaultInstanceLookup_named:
  assumes "\<forall>c\<in>set (getConfigArray jenkinsConfig ''instances'').
             \<not> falsy (getOptionalString c ''name'')"
  shows "defaultInstanceLookup jenkinsConfig =
     (case List.find (\<lambda>c. getOptionalString c ''name'' = Some ''default'')
             (getConfigArray jenkinsConfig ''instances'') of
        Some entry \<Rightarrow> Inr entry
      | None \<Rightarrow>
          if \<not> falsy (getOptionalString jenkinsConfig ''baseUrl'') \<and>
             \<not> falsy (getOptionalString jenkinsConfig ''username'') \<and>
             \<not> falsy (getOptionalString jenkinsConfig ''apiKey'')
          then Inr jenkinsConfig else Inl NoDefaultInstance)"
  unfolding defaultInstanceLookup_def filterByName_named [OF assms] DEFAULT_JENKINS_NAME_def
  by (simp add: first_of_filter [symmetric] Let_def split: list.splits)

lemma namedInstanceLookup_named:
  assumes "\<forall>c\<in>set (getConfigArray jenkinsConfig ''instances'').
             \<not> falsy (getOptionalString c ''name'')"
  shows "namedInstanceLookup n jenkinsConfig =
     (case List.find (\<lambda>c. getOptionalString c ''name'' = Some n)
             (getConfigArray jenkinsConfig ''instances'') of
        Some entry \<Rightarrow> Inr entry
      | None \<Rightarrow> Inl (NamedInstanceNotFound n))"
  unfolding namedInstanceLookup_def filterByName_named [OF assms]
  by (simp add: first_of_filter [symmetric] split: list.splits)

lemma lookup_by_name:
  assumes "getConfig rootConfig ''jenkins'' = Inr jenkinsConfig"
    and "\<forall>c\<in>set (getConfigArray jenkinsConfig ''instances'').
           \<not> falsy (getOptionalString c ''name'')"
    and "(jenkinsName = Some n \<and> n \<noteq> []) \<or> (falsy jenkinsName \<and> n = ''default'')"
    and "List.find (\<lambda>c. getOptionalString c ''name'' = Some n)
           (getConfigArray jenkinsConfig ''instances'') = Some entry"
  shows "getInstanceConfig jenkinsName rootConfig = Inr entry"
proof (cases "lookupPath jenkinsName")
  case DefaultInstancePath
  with assms(3) have "n = ''default''"
    by (auto simp: lookupPath_def falsy_def DEFAULT_JENKINS_NAME_def
        split: option.splits if_splits)
  with assms(1,4) DefaultInstancePath defaultInstanceLookup_named [OF assms(2)]
  show ?thesis by (simp add: getInstanceConfig_def)
next
  case (NamedInstancePath m)
  with assms(3) have "m = n"
    by (auto simp: lookupPath_def falsy_def DEFAULT_JENKINS_NAME_def
        split: option.splits if_splits)
  with assms(1,4) NamedInstancePath namedInstanceLookup_named [OF assms(2), of n]
  show ?thesis by (simp add: getInstanceConfig_def)
qed

lemma getInstanceConfig_error:
  "getInstanceConfig jenkinsName rootConfig = Inl e \<Longrightarrow>
   e = NoDefaultInstance \<or> (\<exists>n. e = NamedInstanceNotFound n) \<or> (\<exists>k. e = ConfigFieldMissing k)"
  by (auto simp: getInstanceConfig_def getConfig_def defaultInstanceLookup_def
      namedInstanceLookup_def Let_def
      split: sum.splits option.splits lookup_path.splits list.splits if_splits
      dest: filterByName_error)

section \<open>From the entity to the result\<close>

lemma jenkinsInfoOf_error:
  "jenkinsInfoOf rootConfig v = Inl e \<Longrightarrow>
   e = NoDefaultInstance \<or> (\<exists>n. e = NamedInstanceNotFound n) \<or> (\<exists>k. e = ConfigFieldMissing k)"
  by (auto simp: jenkinsInfoOf_def split: prod.splits sum.splits
      dest: getInstanceConfig_error getString_error)

lemma jenkinsInfoOf_not_AnnotationMissing:
  "jenkinsInfoOf rootConfig v \<noteq> Inl (AnnotationMissing r)"
  using jenkinsInfoOf_error [of rootConfig v "AnnotationMissing r"] by auto

lemma getEntityAnnotationValue_cases:
  "getEntityAnnotationValue e =
     (if falsy (annotationAt e OLD_JENKINS_ANNOTATION) then annotationAt e NEW_JENKINS_ANNOTATION
      else annotationAt e OLD_JENKINS_ANNOTATION)"
  by (simp add: getEntityAnnotationValue_def orElse_def)

lemma getInstance_found:
  assumes "catalog (entityRef opt) = Some entity"
  shows "getInstance catalog rootConfig opt =
     (case getEntityAnnotationValue entity of
        None \<Rightarrow> Inl (AnnotationMissing (entityRef opt))
      | Some v \<Rightarrow> if v = [] then Inl (AnnotationMissing (entityRef opt))
                  else jenkinsInfoOf rootConfig v)"
  using assms by (simp add: getInstance_def Let_def falsy_def split: option.splits)

lemma getInstance_success:
  assumes "getInstance catalog rootConfig opt = Inr info"
  shows "\<exists>entity v. catalog (entityRef opt) = Some entity \<and>
           getEntityAnnotationValue entity = Some v \<and> v \<noteq> [] \<and>
           jenkinsInfoOf rootConfig v = Inr info"
proof -
  from assms obtain entity where e: "catalog (entityRef opt) = Some entity"
    by (cases "catalog (entityRef opt)") (simp_all add: getInstance_def)
  from assms e obtain v where "getEntityAnnotationValue entity = Some v" "v \<noteq> []"
    "jenkinsInfoOf rootConfig v = Inr info"
    by (cases "getEntityAnnotationValue entity")
       (simp_all add: getInstance_found [where catalog = catalog and entity = entity]
          split: if_splits)
  with e show ?thesis by blast
qed

section \<open>Resolving the instance settings\<close>

text \<open>
  C1 (as amended). When the \<^verbatim>\<open>jenkins\<close> node exists, the instance identity is absent or
  is \<open>default\<close>, and every entry of \<^verbatim>\<open>jenkins.instances\<close> has a non-empty \<open>name\<close>:
  the first entry named \<open>default\<close> is returned if there is one; otherwise the
  \<^verbatim>\<open>jenkins\<close> node itself is returned if its \<open>baseUrl\<close>, \<open>username\<close> and \<open>apiKey\<close> are
  all present and non-empty; otherwise the call fails with \<open>NoDefaultInstance\<close>.
\<close>

theorem default_instance_resolution:
  assumes "getConfig rootConfig ''jenkins'' = Inr jenkinsConfig"
    and "jenkinsName = None \<or> jenkinsName = Some ''default''"
    and "\<forall>c\<in>set (getConfigArray jenkinsConfig ''instances'').
           \<not> falsy (getOptionalString c ''name'')"
  shows "getInstanceConfig jenkinsName rootConfig =
     (case List.find (\<lambda>c. getOptionalString c ''name'' = Some ''default'')
             (getConfigArray jenkinsConfig ''instances'') of
        Some entry \<Rightarrow> Inr entry
      | None \<Rightarrow>
          if \<not> falsy (getOptionalString jenkinsConfig ''baseUrl'') \<and>
             \<not> falsy (getOptionalString jenkinsConfig ''username'') \<and>
             \<not> falsy (getOptionalString jenkinsConfig ''apiKey'')
          then Inr jenkinsConfig else Inl NoDefaultInstance)"
  using assms(1) lookupPath_default [OF assms(2)] defaultInstanceLookup_named [OF assms(3)]
  by (simp add: getInstanceConfig_def)

theorem default_instance_resolution_witness:
  "getInstanceConfig None
     (rootOf (jenkinsNode [] [instanceEntry ''team-1'' ''https://ci.example/'' ''u'' ''k'',
                              instanceEntry ''default'' ''https://d.example/'' ''v'' ''w'']))
     = Inr (instanceEntry ''default'' ''https://d.example/'' ''v'' ''w'') \<and>
   getInstanceConfig (Some ''default'')
     (rootOf (jenkinsNode [(''baseUrl'', ''https://f.example/''), (''username'', ''u''),
                           (''apiKey'', ''k'')] []))
     = Inr (jenkinsNode [(''baseUrl'', ''https://f.example/''), (''username'', ''u''),
                         (''apiKey'', ''k'')] []) \<and>
   getInstanceConfig None
     (rootOf (jenkinsNode [(''baseUrl'', ''https://f.example/''), (''username'', ''u'')] []))
     = Inl NoDefaultInstance"
proof -
  let ?named = "jenkinsNode [] [instanceEntry ''team-1'' ''https://ci.example/'' ''u'' ''k'',
                                instanceEntry ''default'' ''https://d.example/'' ''v'' ''w'']"
  let ?flat = "jenkinsNode [(''baseUrl'', ''https://f.example/''), (''username'', ''u''),
                            (''apiKey'', ''k'')] []"
  let ?partial = "jenkinsNode [(''baseUrl'', ''https://f.example/''), (''username'', ''u'')] []"
  have node: "getConfig (rootOf ?named) ''jenkins'' = Inr ?named"
    "getConfig (rootOf ?flat) ''jenkins'' = Inr ?flat"
    "getConfig (rootOf ?partial) ''jenkins'' = Inr ?partial"
    by (simp_all add: example_defs config_defs)
  have names: "\<forall>c\<in>set (getConfigArray ?named ''instances''). \<not> falsy (getOptionalString c ''name'')"
    "\<forall>c\<in>set (getConfigArray ?flat ''instances''). \<not> falsy (getOptionalString c ''name'')"
    "\<forall>c\<in>set (getConfigArray ?partial ''instances''). \<not> falsy (getOptionalString c ''name'')"
    by (simp_all add: example_defs config_defs)
  from default_instance_resolution [OF node(1) _ names(1), of None]
  have "getInstanceConfig None (rootOf ?named)
          = Inr (instanceEntry ''default'' ''https://d.example/'' ''v'' ''w'')"
    by (simp add: example_defs config_defs)
  moreover from default_instance_resolution [OF node(2) _ names(2), of "Some ''default''"]
  have "getInstanceConfig (Some ''default'') (rootOf ?flat) = Inr ?flat"
    by (simp add: example_defs config_defs)
  moreover from default_instance_resolution [OF node(3) _ names(3), of None]
  have "getInstanceConfig None (rootOf ?partial) = Inl NoDefaultInstance"
    by (simp add: example_defs config_defs)
  ultimately show ?thesis by simp
qed

text \<open>
  The claim as it stands fails where another entry of the array has no name: the array
  holds an entry named \<open>default\<close>, and the call fails on the \<open>name\<close> of its neighbour.
\<close>

theorem default_entry_not_returned:
  "instanceEntry ''default'' ''https://d.example/'' ''v'' ''w''
     \<in> set (getConfigArray
         (jenkinsNode [] [instanceEntry ''default'' ''https://d.example/'' ''v'' ''w'',
                          unnamedEntry ''https://x.example/'' ''u'' ''k''])
         ''instances'') \<and>
   getString (instanceEntry ''default'' ''https://d.example/'' ''v'' ''w'') ''name''
     = Inr ''default'' \<and>
   getInstanceConfig None
     (rootOf (jenkinsNode [] [instanceEntry ''default'' ''https://d.example/'' ''v'' ''w'',
                              unnamedEntry ''https://x.example/'' ''u'' ''k'']))
     = Inl (ConfigFieldMissing ''name'')"
  by (simp add: example_defs config_defs)

text \<open>
  C2 (as amended). When the \<^verbatim>\<open>jenkins\<close> node exists, the instance identity is a
  non-empty string other than \<open>default\<close>, and every entry of \<^verbatim>\<open>jenkins.instances\<close> has
  a non-empty \<open>name\<close>: the first entry whose name is the identity is returned, and the
  call fails with \<open>NamedInstanceNotFound\<close> of the identity exactly when no entry has
  that name.
\<close>

theorem named_instance_resolution:
  assumes "getConfig rootConfig ''jenkins'' = Inr jenkinsConfig"
    and "n \<noteq> []" and "n \<noteq> ''default''"
    and "\<forall>c\<in>set (getConfigArray jenkinsConfig ''instances'').
           \<not> falsy (getOptionalString c ''name'')"
  shows "getInstanceConfig (Some n) rootConfig =
     (case List.find (\<lambda>c. getOptionalString c ''name'' = Some n)
             (getConfigArray jenkinsConfig ''instances'') of
        Some entry \<Rightarrow> Inr entry
      | None \<Rightarrow> Inl (NamedInstanceNotFound n)) \<and>
    ((getInstanceConfig (Some n) rootConfig = Inl (NamedInstanceNotFound n)) =
     (\<forall>c\<in>set (getConfigArray jenkinsConfig ''instances'').
        getOptionalString c ''name'' \<noteq> Some n))"
proof -
  let ?cs = "getConfigArray jenkinsConfig ''instances''"
  let ?P = "\<lambda>c. getOptionalString c ''name'' = Some n"
  have eq: "getInstanceConfig (Some n) rootConfig =
     (case List.find ?P ?cs of Some entry \<Rightarrow> Inr entry | None \<Rightarrow> Inl (NamedInstanceNotFound n))"
    using assms(1) lookupPath_named [OF assms(2,3)] namedInstanceLookup_named [OF assms(4)]
    by (simp add: getInstanceConfig_def)
  have "(List.find ?P ?cs = None) = (\<forall>c\<in>set ?cs. \<not> ?P c)"
    by (auto simp: find_None_iff)
  then have "(getInstanceConfig (Some n) rootConfig = Inl (NamedInstanceNotFound n)) =
     (\<forall>c\<in>set ?cs. \<not> ?P c)"
    unfolding eq by (cases "List.find ?P ?cs") auto
  with eq show ?thesis by blast
qed

theorem named_instance_resolution_witness:
  "getInstanceConfig (Some ''team-1'')
     (rootOf (jenkinsNode [] [instanceEntry ''team-0'' ''https://zero.example/'' ''a'' ''b'',
                              instanceEntry ''team-1'' ''https://ci.example/'' ''u'' ''k'']))
     = Inr (instanceEntry ''team-1'' ''https://ci.example/'' ''u'' ''k'') \<and>
   getInstanceConfig (Some ''team-2'')
     (rootOf (jenkinsNode [] [instanceEntry ''team-0'' ''https://zero.example/'' ''a'' ''b'',
                              instanceEntry ''team-1'' ''https://ci.example/'' ''u'' ''k'']))
     = Inl (NamedInstanceNotFound ''team-2'')"
proof -
  let ?jc = "jenkinsNode [] [instanceEntry ''team-0'' ''https://zero.example/'' ''a'' ''b'',
                             instanceEntry ''team-1'' ''https://ci.example/'' ''u'' ''k'']"
  have node: "getConfig (rootOf ?jc) ''jenkins'' = Inr ?jc"
    by (simp add: example_defs config_defs)
  have names: "\<forall>c\<in>set (getConfigArray ?jc ''instances''). \<not> falsy (getOptionalString c ''name'')"
    by (simp add: example_defs config_defs)
  have "''team-1'' \<noteq> []" and "''team-1'' \<noteq> ''default''"
    by simp_all
  from named_instance_resolution [OF node this names]
  have "getInstanceConfig (Some ''team-1'') (rootOf ?jc)
          = Inr (instanceEntry ''team-1'' ''https://ci.example/'' ''u'' ''k'')"
    by (simp add: example_defs config_defs)
  moreover have "''team-2'' \<noteq> []" and "''team-2'' \<noteq> ''default''"
    by simp_all
  from named_instance_resolution [OF node this names]
  have "getInstanceConfig (Some ''team-2'') (rootOf ?jc) = Inl (NamedInstanceNotFound ''team-2'')"
    by (simp add: example_defs config_defs)
  ultimately show ?thesis by simp
qed

text \<open>
  The claim as it stands fails at two inputs. The annotation value \<open>:job\<close> has the empty
  string as its identity, present and not \<open>default\<close>; no entry has that name, and the
  call returns the flat \<^verbatim>\<open>jenkins\<close> node instead of failing. And an entry named
  \<open>team-1\<close> is not returned when its neighbour has no name.
\<close>

theorem named_lookup_not_as_claimed:
  "fst (splitJenkinsAndJobName '':job'') = Some [] \<and>
   getInstanceConfig (Some [])
     (rootOf (jenkinsNode [(''baseUrl'', ''https://f.example/''), (''username'', ''u''),
                           (''apiKey'', ''k'')] []))
     = Inr (jenkinsNode [(''baseUrl'', ''https://f.example/''), (''username'', ''u''),
                         (''apiKey'', ''k'')] []) \<and>
   getString (instanceEntry ''team-1'' ''https://ci.example/'' ''u'' ''k'') ''name''
     = Inr ''team-1'' \<and>
   getInstanceConfig (Some ''team-1'')
     (rootOf (jenkinsNode [] [instanceEntry ''team-1'' ''https://ci.example/'' ''u'' ''k'',
                              unnamedEntry ''https://x.example/'' ''u'' ''k'']))
     = Inl (ConfigFieldMissing ''name'')"
  by (simp add: example_defs config_defs splitJenkinsAndJobName_def substring_def)

text \<open>
  C9 (as amended). When every entry of \<^verbatim>\<open>jenkins.instances\<close> has a non-empty \<open>name\<close>
  and the name looked up (the identity, or \<open>default\<close> when the identity is absent or
  empty) is the name of several entries, the earliest of them in array order is the one
  returned, and the result is built from its \<open>baseUrl\<close>, \<open>username\<close> and \<open>apiKey\<close>.
\<close>

theorem earliest_match_returned:
  assumes "getConfig rootConfig ''jenkins'' = Inr jenkinsConfig"
    and "getConfigArray jenkinsConfig ''instances'' = before @ entry # rest"
    and "\<forall>c\<in>set (before @ entry # rest). \<not> falsy (getOptionalString c ''name'')"
    and "getOptionalString entry ''name'' = Some n"
    and "\<forall>c\<in>set before. getOptionalString c ''name'' \<noteq> Some n"
    and "(jenkinsName = Some n \<and> n \<noteq> []) \<or> (falsy jenkinsName \<and> n = ''default'')"
  shows "getInstanceConfig jenkinsName rootConfig = Inr entry \<and>
     (\<forall>v url user key.
        fst (splitJenkinsAndJobName v) = jenkinsName \<and>
        getString entry ''baseUrl'' = Inr url \<and>
        getString entry ''username'' = Inr user \<and>
        getString entry ''apiKey'' = Inr key \<longrightarrow>
        jenkinsInfoOf rootConfig v =
          Inr \<lparr>baseUrl = url,
               headers = Some [(''Authorization'', ''Basic '' @ basicCredentials user key)],
               jobName = snd (splitJenkinsAndJobName v)\<rparr>)"
proof -
  have "List.find (\<lambda>c. getOptionalString c ''name'' = Some n) (before @ entry # rest)
          = Some entry"
    using assms(4,5) by (simp add: find_first)
  then have res: "getInstanceConfig jenkinsName rootConfig = Inr entry"
    using lookup_by_name [OF assms(1) _ assms(6), of entry] assms(2,3) by simp
  then show ?thesis
    by (auto simp: jenkinsInfoOf_def split: prod.splits)
qed

theorem earliest_match_returned_witness:
  "getInstanceConfig (Some ''team-1'')
     (rootOf (jenkinsNode [] [instanceEntry ''team-0'' ''https://zero.example/'' ''a'' ''b'',
                              instanceEntry ''team-1'' ''https://first.example/'' ''u'' ''k'',
                              instanceEntry ''team-1'' ''https://second.example/'' ''v'' ''w'']))
     = Inr (instanceEntry ''team-1'' ''https://first.example/'' ''u'' ''k'') \<and>
   jenkinsInfoOf
     (rootOf (jenkinsNode [] [instanceEntry ''team-0'' ''https://zero.example/'' ''a'' ''b'',
                              instanceEntry ''team-1'' ''https://first.example/'' ''u'' ''k'',
                              instanceEntry ''team-1'' ''https://second.example/'' ''v'' ''w'']))
     ''team-1:proj-foo''
     = Inr \<lparr>baseUrl = ''https://first.example/'',
            headers = Some [(''Authorization'', ''Basic dTpr'')],
            jobName = ''proj-foo''\<rparr>"
proof -
  let ?before = "[instanceEntry ''team-0'' ''https://zero.example/'' ''a'' ''b'']"
  let ?entry = "instanceEntry ''team-1'' ''https://first.example/'' ''u'' ''k''"
  let ?rest = "[instanceEntry ''team-1'' ''https://second.example/'' ''v'' ''w'']"
  let ?jc = "jenkinsNode [] (?before @ ?entry # ?rest)"
  have h1: "getConfig (rootOf ?jc) ''jenkins'' = Inr ?jc"
    by (simp add: example_defs config_defs)
  have h2: "getConfigArray ?jc ''instances'' = ?before @ ?entry # ?rest"
    by (simp add: example_defs config_defs)
  have h3: "\<forall>c\<in>set (?before @ ?entry # ?rest). \<not> falsy (getOptionalString c ''name'')"
    by (simp add: example_defs config_defs)
  have h4: "getOptionalString ?entry ''name'' = Some ''team-1''"
    by (simp add: example_defs config_defs)
  have h5: "\<forall>c\<in>set ?before. getOptionalString c ''name'' \<noteq> Some ''team-1''"
    by (simp add: example_defs config_defs)
  have h6: "(Some ''team-1'' = Some ''team-1'' \<and> ''team-1'' \<noteq> []) \<or>
            (falsy (Some ''team-1'') \<and> ''team-1'' = ''default'')"
    by simp
  have split: "splitJenkinsAndJobName ''team-1:proj-foo'' = (Some ''team-1'', ''proj-foo'')"
    by (simp add: splitJenkinsAndJobName_def substring_def)
  have fields: "getString ?entry ''baseUrl'' = Inr ''https://first.example/''"
    "getString ?entry ''username'' = Inr ''u''" "getString ?entry ''apiKey'' = Inr ''k''"
    by (simp_all add: example_defs config_defs)
  have creds: "basicCredentials ''u'' ''k'' = ''dTpr''"
    by (simp add: base64_defs)
  from earliest_match_returned [OF h1 h2 h3 h4 h5 h6] split fields creds
  show ?thesis by simp
qed

text \<open>
  The claim as it stands fails where a later entry has no name: two entries are named
  \<open>team-1\<close>, and the call fails instead of returning the earlier one.
\<close>

theorem earliest_match_not_returned:
  "getString (instanceEntry ''team-1'' ''https://first.example/'' ''u'' ''k'') ''name''
     = Inr ''team-1'' \<and>
   getString (instanceEntry ''team-1'' ''https://second.example/'' ''v'' ''w'') ''name''
     = Inr ''team-1'' \<and>
   getInstanceConfig (Some ''team-1'')
     (rootOf (jenkinsNode [] [instanceEntry ''team-1'' ''https://first.example/'' ''u'' ''k'',
                              instanceEntry ''team-1'' ''https://second.example/'' ''v'' ''w'',
                              unnamedEntry ''https://x.example/'' ''u'' ''k'']))
     = Inl (ConfigFieldMissing ''name'')"
  by (simp add: example_defs config_defs)

text \<open>
  C10. In the default lookup and in the named lookup alike, the \<open>name\<close> of every entry
  of \<^verbatim>\<open>jenkins.instances\<close> is read as a required string before a match is returned:
  if any entry has no name, or an empty one, the resolution fails, whatever name is looked
  up and whatever the other entries are.
\<close>

theorem unnamed_entry_fails_resolution:
  assumes "getConfig rootConfig ''jenkins'' = Inr jenkinsConfig"
    and "c \<in> set (getConfigArray jenkinsConfig ''instances'')"
    and "falsy (getOptionalString c ''name'')"
  shows "getInstanceConfig jenkinsName rootConfig = Inl (ConfigFieldMissing ''name'')"
  using assms(1) filterByName_unnamed [OF assms(2,3)]
  by (simp add: getInstanceConfig_def defaultInstanceLookup_def namedInstanceLookup_def
      split: lookup_path.splits)

theorem unnamed_entry_fails_resolution_witness:
  "getInstanceConfig (Some ''team-1'')
     (rootOf (jenkinsNode [] [instanceEntry ''team-1'' ''https://ci.example/'' ''u'' ''k'',
                              instanceEntry [] ''https://x.example/'' ''u'' ''k'']))
     = Inl (ConfigFieldMissing ''name'') \<and>
   getInstanceConfig None
     (rootOf (jenkinsNode [] [unnamedEntry ''https://x.example/'' ''u'' ''k'',
                              instanceEntry ''default'' ''https://d.example/'' ''v'' ''w'']))
     = Inl (ConfigFieldMissing ''name'')"
proof -
  let ?empty = "instanceEntry [] ''https://x.example/'' ''u'' ''k''"
  let ?unnamed = "unnamedEntry ''https://x.example/'' ''u'' ''k''"
  let ?a = "jenkinsNode [] [instanceEntry ''team-1'' ''https://ci.example/'' ''u'' ''k'', ?empty]"
  let ?b = "jenkinsNode [] [?unnamed, instanceEntry ''default'' ''https://d.example/'' ''v'' ''w'']"
  have a: "getConfig (rootOf ?a) ''jenkins'' = Inr ?a"
    "?empty \<in> set (getConfigArray ?a ''instances'')"
    "falsy (getOptionalString ?empty ''name'')"
    by (simp_all add: example_defs config_defs)
  have b: "getConfig (rootOf ?b) ''jenkins'' = Inr ?b"
    "?unnamed \<in> set (getConfigArray ?b ''instances'')"
    "falsy (getOptionalString ?unnamed ''name'')"
    by (simp_all add: example_defs config_defs)
  from unnamed_entry_fails_resolution [OF a, of "Some ''team-1''"]
    unnamed_entry_fails_resolution [OF b, of None]
  show ?thesis by simp
qed

section \<open>The annotation of the entity\<close>

text \<open>
  C3 (as amended). For an entity that the catalog has, \<^verbatim>\<open>getInstance\<close> fails with
  \<open>AnnotationMissing\<close> exactly when neither \<^verbatim>\<open>jenkins.io/github-folder\<close> nor
  \<^verbatim>\<open>jenkins.io/job-slug\<close> holds a non-empty value. When the legacy key holds a non-empty
  value, that value is parsed; when it does not and the current key does, the current
  key's value is parsed.
\<close>

theorem annotation_missing_iff:
  assumes "catalog (entityRef opt) = Some entity"
  shows "((getInstance catalog rootConfig opt = Inl (AnnotationMissing (entityRef opt))) =
          (falsy (annotationAt entity OLD_JENKINS_ANNOTATION) \<and>
           falsy (annotationAt entity NEW_JENKINS_ANNOTATION))) \<and>
         (\<forall>v. annotationAt entity OLD_JENKINS_ANNOTATION = Some v \<and> v \<noteq> [] \<longrightarrow>
              getInstance catalog rootConfig opt = jenkinsInfoOf rootConfig v) \<and>
         (\<forall>v. falsy (annotationAt entity OLD_JENKINS_ANNOTATION) \<and>
              annotationAt entity NEW_JENKINS_ANNOTATION = Some v \<and> v \<noteq> [] \<longrightarrow>
              getInstance catalog rootConfig opt = jenkinsInfoOf rootConfig v)"
  unfolding getInstance_found [where catalog = catalog and opt = opt, OF assms]
    getEntityAnnotationValue_cases
  by (auto simp: falsy_def jenkinsInfoOf_not_AnnotationMissing split: option.splits)

theorem annotation_missing_iff_witness:
  "getInstance (catalogOf (annotated [(''backstage.io/owner'', ''team-1'')]))
     (rootOf (jenkinsNode [] [instanceEntry ''team-1'' ''https://ci.example/'' ''u'' ''k'']))
     \<lparr>entityRef = someRef, jobNameOption = None\<rparr>
     = Inl (AnnotationMissing someRef) \<and>
   getInstance (catalogOf (annotated [(NEW_JENKINS_ANNOTATION, ''team-1:proj-foo'')]))
     (rootOf (jenkinsNode [] [instanceEntry ''team-1'' ''https://ci.example/'' ''u'' ''k'']))
     \<lparr>entityRef = someRef, jobNameOption = None\<rparr>
     = jenkinsInfoOf
         (rootOf (jenkinsNode [] [instanceEntry ''team-1'' ''https://ci.example/'' ''u'' ''k'']))
         ''team-1:proj-foo''"
proof -
  let ?root = "rootOf (jenkinsNode [] [instanceEntry ''team-1'' ''https://ci.example/'' ''u'' ''k''])"
  let ?opt = "\<lparr>entityRef = someRef, jobNameOption = None\<rparr>"
  let ?none = "annotated [(''backstage.io/owner'', ''team-1'')]"
  let ?slug = "annotated [(NEW_JENKINS_ANNOTATION, ''team-1:proj-foo'')]"
  have h1: "catalogOf ?none (entityRef ?opt) = Some ?none"
    by (simp add: catalogOf_def)
  have h2: "catalogOf ?slug (entityRef ?opt) = Some ?slug"
    by (simp add: catalogOf_def)
  have a: "falsy (annotationAt ?none OLD_JENKINS_ANNOTATION) \<and>
           falsy (annotationAt ?none NEW_JENKINS_ANNOTATION)"
    by (simp add: example_defs instance_defs falsy_def)
  have b: "falsy (annotationAt ?slug OLD_JENKINS_ANNOTATION) \<and>
           annotationAt ?slug NEW_JENKINS_ANNOTATION = Some ''team-1:proj-foo''"
    by (simp add: example_defs instance_defs falsy_def)
  from annotation_missing_iff [where catalog = "catalogOf ?none" and opt = ?opt
      and entity = ?none and rootConfig = ?root, OF h1] a
  have "getInstance (catalogOf ?none) ?root ?opt = Inl (AnnotationMissing someRef)"
    by simp
  moreover from annotation_missing_iff [where catalog = "catalogOf ?slug" and opt = ?opt
      and entity = ?slug and rootConfig = ?root, OF h2] b
  have "getInstance (catalogOf ?slug) ?root ?opt = jenkinsInfoOf ?root ''team-1:proj-foo''"
    by simp
  ultimately show ?thesis by simp
qed

text \<open>
  The claim as it stands fails where a key is present with the empty string as its
  value: the current key is in the annotation mapping, and the call fails with
  \<open>AnnotationMissing\<close>.
\<close>

theorem empty_annotation_is_missing:
  "annotationAt (annotated [(NEW_JENKINS_ANNOTATION, [])]) NEW_JENKINS_ANNOTATION = Some [] \<and>
   getInstance (catalogOf (annotated [(NEW_JENKINS_ANNOTATION, [])]))
     (rootOf (jenkinsNode [] [instanceEntry ''default'' ''https://d.example/'' ''v'' ''w'']))
     \<lparr>entityRef = someRef, jobNameOption = None\<rparr>
     = Inl (AnnotationMissing someRef)"
  by (simp add: example_defs instance_defs falsy_def)

text \<open>
  C6 (as amended). For an entity whose annotation mapping has both keys, with a non-empty
  value under the legacy key \<^verbatim>\<open>jenkins.io/github-folder\<close>, the value that is parsed into
  instance identity and job name is the legacy key's value.
\<close>

theorem legacy_annotation_precedence:
  assumes "annotationAt entity OLD_JENKINS_ANNOTATION = Some old"
    and "annotationAt entity NEW_JENKINS_ANNOTATION = Some new"
    and "old \<noteq> []"
  shows "getEntityAnnotationValue entity = Some old \<and>
         (catalog (entityRef opt) = Some entity \<longrightarrow>
            getInstance catalog rootConfig opt = jenkinsInfoOf rootConfig old)"
  using assms by (auto simp: getInstance_found getEntityAnnotationValue_cases falsy_def)

theorem legacy_annotation_precedence_witness:
  "getEntityAnnotationValue
     (annotated [(NEW_JENKINS_ANNOTATION, ''team-1:new-job''),
                 (OLD_JENKINS_ANNOTATION, ''team-1:old-job'')])
     = Some ''team-1:old-job'' \<and>
   getInstance
     (catalogOf (annotated [(NEW_JENKINS_ANNOTATION, ''team-1:new-job''),
                            (OLD_JENKINS_ANNOTATION, ''team-1:old-job'')]))
     (rootOf (jenkinsNode [] [instanceEntry ''team-1'' ''https://ci.example/'' ''u'' ''k'']))
     \<lparr>entityRef = someRef, jobNameOption = None\<rparr>
     = Inr \<lparr>baseUrl = ''https://ci.example/'',
            headers = Some [(''Authorization'', ''Basic dTpr'')],
            jobName = ''old-job''\<rparr>"
proof -
  let ?e = "annotated [(NEW_JENKINS_ANNOTATION, ''team-1:new-job''),
                       (OLD_JENKINS_ANNOTATION, ''team-1:old-job'')]"
  let ?root = "rootOf (jenkinsNode [] [instanceEntry ''team-1'' ''https://ci.example/'' ''u'' ''k''])"
  let ?opt = "\<lparr>entityRef = someRef, jobNameOption = None\<rparr>"
  have h1: "annotationAt ?e OLD_JENKINS_ANNOTATION = Some ''team-1:old-job''"
    by (simp add: example_defs instance_defs)
  have h2: "annotationAt ?e NEW_JENKINS_ANNOTATION = Some ''team-1:new-job''"
    by (simp add: example_defs instance_defs)
  have h3: "''team-1:old-job'' \<noteq> []"
    by simp
  have c: "catalogOf ?e (entityRef ?opt) = Some ?e"
    by (simp add: catalogOf_def)
  have i: "jenkinsInfoOf ?root ''team-1:old-job'' =
      Inr \<lparr>baseUrl = ''https://ci.example/'',
           headers = Some [(''Authorization'', ''Basic dTpr'')],
           jobName = ''old-job''\<rparr>"
    by (simp add: example_defs config_defs instance_defs base64_defs)
  from legacy_annotation_precedence [OF h1 h2 h3, of "catalogOf ?e" ?opt ?root] c i
  show ?thesis by simp
qed

text \<open>
  The claim as it stands fails where the legacy key is present with the empty string as
  its value: both keys are in the annotation mapping, and the current key's value is the
  one parsed.
\<close>

theorem empty_legacy_yields_to_current:
  "annotationAt (annotated [(OLD_JENKINS_ANNOTATION, []), (NEW_JENKINS_ANNOTATION, ''proj-bar'')])
     OLD_JENKINS_ANNOTATION = Some [] \<and>
   annotationAt (annotated [(OLD_JENKINS_ANNOTATION, []), (NEW_JENKINS_ANNOTATION, ''proj-bar'')])
     NEW_JENKINS_ANNOTATION = Some ''proj-bar'' \<and>
   getEntityAnnotationValue
     (annotated [(OLD_JENKINS_ANNOTATION, []), (NEW_JENKINS_ANNOTATION, ''proj-bar'')])
     = Some ''proj-bar'' \<and>
   getInstance
     (catalogOf (annotated [(OLD_JENKINS_ANNOTATION, []), (NEW_JENKINS_ANNOTATION, ''proj-bar'')]))
     (rootOf (jenkinsNode [(''baseUrl'', ''https://f.example/''), (''username'', ''u''),
                           (''apiKey'', ''k'')] []))
     \<lparr>entityRef = someRef, jobNameOption = None\<rparr>
     = Inr \<lparr>baseUrl = ''https://f.example/'',
            headers = Some [(''Authorization'', ''Basic dTpr'')],
            jobName = ''proj-bar''\<rparr>"
  by (simp add: example_defs config_defs instance_defs base64_defs)

section \<open>Which lookup is taken\<close>

text \<open>
  C7 (as amended). Each call that reaches the instance resolution takes one of the two
  lookups, and the annotation value decides which: the named lookup, for the text before
  the first colon, when the value has a colon and that text is neither empty nor
  \<open>default\<close>; the default lookup in every other case.
\<close>

theorem lookup_path_by_prefix:
  "lookupPath (fst (splitJenkinsAndJobName v)) =
     (if CHR '':'' \<in> set v \<and> takeWhile (\<lambda>x. x \<noteq> CHR '':'') v \<noteq> [] \<and>
         takeWhile (\<lambda>x. x \<noteq> CHR '':'') v \<noteq> ''default''
      then NamedInstancePath (takeWhile (\<lambda>x. x \<noteq> CHR '':'') v)
      else DefaultInstancePath) \<and>
   (getConfig rootConfig ''jenkins'' = Inr jenkinsConfig \<longrightarrow>
      getInstanceConfig (fst (splitJenkinsAndJobName v)) rootConfig =
        (case lookupPath (fst (splitJenkinsAndJobName v)) of
           DefaultInstancePath \<Rightarrow> defaultInstanceLookup jenkinsConfig
         | NamedInstancePath n \<Rightarrow> namedInstanceLookup n jenkinsConfig))"
proof (cases "CHR '':'' \<in> set v")
  case True
  then show ?thesis
    by (simp add: split_colon lookupPath_def falsy_def DEFAULT_JENKINS_NAME_def
        getInstanceConfig_def)
next
  case False
  then show ?thesis
    by (simp add: split_no_colon lookupPath_def getInstanceConfig_def)
qed

theorem lookup_path_by_prefix_witness:
  "lookupPath (fst (splitJenkinsAndJobName ''team-1:proj-foo'')) = NamedInstancePath ''team-1'' \<and>
   lookupPath (fst (splitJenkinsAndJobName ''proj-bar'')) = DefaultInstancePath \<and>
   getInstanceConfig (fst (splitJenkinsAndJobName ''team-1:proj-foo''))
     (rootOf (jenkinsNode [] [instanceEntry ''team-1'' ''https://ci.example/'' ''u'' ''k'']))
     = namedInstanceLookup ''team-1''
         (jenkinsNode [] [instanceEntry ''team-1'' ''https://ci.example/'' ''u'' ''k''])"
proof -
  let ?jc = "jenkinsNode [] [instanceEntry ''team-1'' ''https://ci.example/'' ''u'' ''k'']"
  have h: "getConfig (rootOf ?jc) ''jenkins'' = Inr ?jc"
    by (simp add: example_defs config_defs)
  from lookup_path_by_prefix [of "''team-1:proj-foo''" "rootOf ?jc" ?jc] h
    lookup_path_by_prefix [of "''proj-bar''" "rootOf ?jc" ?jc]
  show ?thesis by simp
qed

text \<open>
  The claim as it stands fails at two values that do have a colon: the prefix \<open>default\<close>
  and the empty prefix both take the default lookup, which here returns the flat
  \<^verbatim>\<open>jenkins\<close> node where the named lookup finds no instance.
\<close>

theorem colon_prefix_takes_default_path:
  "CHR '':'' \<in> set ''default:proj'' \<and>
   lookupPath (fst (splitJenkinsAndJobName ''default:proj'')) = DefaultInstancePath \<and>
   CHR '':'' \<in> set '':proj'' \<and>
   lookupPath (fst (splitJenkinsAndJobName '':proj'')) = DefaultInstancePath \<and>
   getInstanceConfig (fst (splitJenkinsAndJobName ''default:proj''))
     (rootOf (jenkinsNode [(''baseUrl'', ''https://f.example/''), (''username'', ''u''),
                           (''apiKey'', ''k'')] []))
     = Inr (jenkinsNode [(''baseUrl'', ''https://f.example/''), (''username'', ''u''),
                         (''apiKey'', ''k'')] []) \<and>
   namedInstanceLookup ''default''
     (jenkinsNode [(''baseUrl'', ''https://f.example/''), (''username'', ''u''),
                   (''apiKey'', ''k'')] [])
     = Inl (NamedInstanceNotFound ''default'')"
  by (simp add: example_defs config_defs instance_defs)

section \<open>The job name option\<close>

text \<open>
  C8. The \<^verbatim>\<open>jobName\<close> option of \<^verbatim>\<open>getInstance\<close> is never used: with the catalog, the
  configuration and the entity reference fixed, two calls that differ in the option
  only have the same outcome, and the job name of a result is the job name that the
  split of the entity's annotation value gives.
\<close>

theorem jobName_option_unused:
  "getInstance catalog rootConfig \<lparr>entityRef = ref, jobNameOption = j1\<rparr> =
   getInstance catalog rootConfig \<lparr>entityRef = ref, jobNameOption = j2\<rparr> \<and>
   (\<forall>info. getInstance catalog rootConfig \<lparr>entityRef = ref, jobNameOption = j1\<rparr> = Inr info \<longrightarrow>
      (\<exists>entity v. catalog ref = Some entity \<and> getEntityAnnotationValue entity = Some v \<and>
                  jobName info = snd (splitJenkinsAndJobName v)))"
proof (intro conjI allI impI)
  show "getInstance catalog rootConfig \<lparr>entityRef = ref, jobNameOption = j1\<rparr> =
        getInstance catalog rootConfig \<lparr>entityRef = ref, jobNameOption = j2\<rparr>"
  proof (cases "catalog ref")
    case None
    then show ?thesis by (simp add: getInstance_def)
  next
    case (Some entity)
    then show ?thesis
      by (simp add: getInstance_found [where catalog = catalog and entity = entity]
          split: option.splits)
  qed
next
  fix info
  assume "getInstance catalog rootConfig \<lparr>entityRef = ref, jobNameOption = j1\<rparr> = Inr info"
  from getInstance_success [OF this] obtain entity v
    where e: "catalog ref = Some entity" and v: "getEntityAnnotationValue entity = Some v"
      and info: "jenkinsInfoOf rootConfig v = Inr info"
    by auto
  from info have "jobName info = snd (splitJenkinsAndJobName v)"
    by (auto simp: jenkinsInfoOf_def split: prod.splits sum.splits)
  with e v show "\<exists>entity v. catalog ref = Some entity \<and>
      getEntityAnnotationValue entity = Some v \<and> jobName info = snd (splitJenkinsAndJobName v)"
    by blast
qed

theorem jobName_option_unused_witness:
  "getInstance (catalogOf (annotated [(NEW_JENKINS_ANNOTATION, ''team-1:proj-foo'')]))
     (rootOf (jenkinsNode [] [instanceEntry ''team-1'' ''https://ci.example/'' ''u'' ''k'']))
     \<lparr>entityRef = someRef, jobNameOption = Some ''other-job''\<rparr>
   = getInstance (catalogOf (annotated [(NEW_JENKINS_ANNOTATION, ''team-1:proj-foo'')]))
     (rootOf (jenkinsNode [] [instanceEntry ''team-1'' ''https://ci.example/'' ''u'' ''k'']))
     \<lparr>entityRef = someRef, jobNameOption = None\<rparr> \<and>
   getInstance (catalogOf (annotated [(NEW_JENKINS_ANNOTATION, ''team-1:proj-foo'')]))
     (rootOf (jenkinsNode [] [instanceEntry ''team-1'' ''https://ci.example/'' ''u'' ''k'']))
     \<lparr>entityRef = someRef, jobNameOption = Some ''other-job''\<rparr>
   = Inr \<lparr>baseUrl = ''https://ci.example/'',
          headers = Some [(''Authorization'', ''Basic dTpr'')],
          jobName = ''proj-foo''\<rparr>"
proof -
  let ?cat = "catalogOf (annotated [(NEW_JENKINS_ANNOTATION, ''team-1:proj-foo'')])"
  let ?root = "rootOf (jenkinsNode [] [instanceEntry ''team-1'' ''https://ci.example/'' ''u'' ''k''])"
  have "getInstance ?cat ?root \<lparr>entityRef = someRef, jobNameOption = None\<rparr>
      = Inr \<lparr>baseUrl = ''https://ci.example/'',
             headers = Some [(''Authorization'', ''Basic dTpr'')],
             jobName = ''proj-foo''\<rparr>"
    by (simp add: example_defs config_defs instance_defs base64_defs)
  with jobName_option_unused [of ?cat ?root someRef "Some ''other-job''" None]
  show ?thesis by simp
qed

section \<open>The Authorization header\<close>

text \<open>
  C4 (as amended). Whenever \<^verbatim>\<open>getInstance\<close> succeeds, the resolved instance has a
  non-empty \<open>username\<close> and a non-empty \<open>apiKey\<close>, and the headers are the one entry
  \<open>Authorization\<close>, whose value is \<open>Basic \<close> followed by the Base64 encoding of the
  bytes of \<open>username\<close>, a colon and \<open>apiKey\<close>, one byte for each character. Decoding
  what follows \<open>Basic \<close> gives these characters back; splitting them at the first
  colon gives \<open>username\<close> and \<open>apiKey\<close> back when \<open>username\<close> has no colon.
\<close>

theorem basic_authorization_header:
  assumes "getInstance catalog rootConfig opt = Inr info"
  shows "\<exists>entity v instanceConfig username apiKey.
     catalog (entityRef opt) = Some entity \<and>
     getEntityAnnotationValue entity = Some v \<and>
     getInstanceConfig (fst (splitJenkinsAndJobName v)) rootConfig = Inr instanceConfig \<and>
     getString instanceConfig ''username'' = Inr username \<and> username \<noteq> [] \<and>
     getString instanceConfig ''apiKey'' = Inr apiKey \<and> apiKey \<noteq> [] \<and>
     headers info = Some [(''Authorization'',
        ''Basic '' @ base64Encode (binaryBytes (username @ '':'' @ apiKey)))] \<and>
     map_option binaryString
        (base64Decode (drop 6 (''Basic '' @ base64Encode (binaryBytes (username @ '':'' @ apiKey)))))
       = Some (username @ '':'' @ apiKey) \<and>
     (CHR '':'' \<notin> set username \<longrightarrow>
        readBasicAuthorization
          (''Basic '' @ base64Encode (binaryBytes (username @ '':'' @ apiKey)))
        = Some (username, apiKey))"
proof -
  from getInstance_success [OF assms] obtain entity v
    where e: "catalog (entityRef opt) = Some entity"
      and v: "getEntityAnnotationValue entity = Some v"
      and info: "jenkinsInfoOf rootConfig v = Inr info"
    by auto
  from info obtain ic u k where
    ic: "getInstanceConfig (fst (splitJenkinsAndJobName v)) rootConfig = Inr ic"
    and u: "getString ic ''username'' = Inr u" and k: "getString ic ''apiKey'' = Inr k"
    and hd: "headers info = Some [(''Authorization'', ''Basic '' @ basicCredentials u k)]"
    by (auto simp: jenkinsInfoOf_def split: prod.splits sum.splits)
  from u k have ne: "u \<noteq> []" "k \<noteq> []"
    by (simp_all add: getString_eq_Inr)
  have rt: "map_option binaryString
        (base64Decode (drop 6 (''Basic '' @ base64Encode (binaryBytes (u @ '':'' @ k)))))
       = Some (u @ '':'' @ k)"
    by (simp add: base64Decode_Encode binaryString_binaryBytes)
  have rd: "CHR '':'' \<notin> set u \<longrightarrow>
        readBasicAuthorization (''Basic '' @ base64Encode (binaryBytes (u @ '':'' @ k)))
        = Some (u, k)"
  proof
    assume "CHR '':'' \<notin> set u"
    then have "splitFirstColon (u @ '':'' @ k) = (u, k)"
      by (rule splitFirstColon_join)
    then show "readBasicAuthorization (''Basic '' @ base64Encode (binaryBytes (u @ '':'' @ k)))
        = Some (u, k)"
      using readBasicAuthorization_credentials [of u k] by (simp only: basicCredentials_def)
  qed
  from e v ic u k ne hd rt rd show ?thesis
    unfolding basicCredentials_def by blast
qed

theorem basic_authorization_header_witness:
  "getInstance (catalogOf (annotated [(NEW_JENKINS_ANNOTATION, ''team-1:proj-foo'')]))
     (rootOf (jenkinsNode [] [instanceEntry ''team-1'' ''https://ci.example/'' ''u'' ''k'']))
     \<lparr>entityRef = someRef, jobNameOption = None\<rparr>
   = Inr \<lparr>baseUrl = ''https://ci.example/'',
          headers = Some [(''Authorization'', ''Basic dTpr'')],
          jobName = ''proj-foo''\<rparr> \<and>
   ''Basic '' @ base64Encode (binaryBytes (''u'' @ '':'' @ ''k'')) = ''Basic dTpr'' \<and>
   readBasicAuthorization ''Basic dTpr'' = Some (''u'', ''k'')"
proof -
  let ?cat = "catalogOf (annotated [(NEW_JENKINS_ANNOTATION, ''team-1:proj-foo'')])"
  let ?root = "rootOf (jenkinsNode [] [instanceEntry ''team-1'' ''https://ci.example/'' ''u'' ''k''])"
  let ?opt = "\<lparr>entityRef = someRef, jobNameOption = None\<rparr>"
  let ?info = "\<lparr>baseUrl = ''https://ci.example/'',
          headers = Some [(''Authorization'', ''Basic dTpr'')],
          jobName = ''proj-foo''\<rparr>"
  have h: "getInstance ?cat ?root ?opt = Inr ?info"
    by (simp add: example_defs config_defs instance_defs base64_defs)
  from basic_authorization_header [OF h] obtain username apiKey
    where hd: "headers ?info = Some [(''Authorization'',
        ''Basic '' @ base64Encode (binaryBytes (username @ '':'' @ apiKey)))]"
    by blast
  have enc: "''Basic '' @ base64Encode (binaryBytes (''u'' @ '':'' @ ''k'')) = ''Basic dTpr''"
    by (simp add: base64_defs)
  have dec: "readBasicAuthorization ''Basic dTpr'' = Some (''u'', ''k'')"
    by (simp add: base64_defs)
  from h hd enc dec show ?thesis by simp
qed

text \<open>
  The claim as it stands fails for a user name with a colon: the call succeeds for the
  user \<open>a:b\<close> with the key \<open>k\<close>, and the split at the first colon of the decoded
  header gives \<open>a\<close> and \<open>b:k\<close>.
\<close>

theorem colon_in_username_not_recovered:
  "getInstance (catalogOf (annotated [(NEW_JENKINS_ANNOTATION, ''proj-bar'')]))
     (rootOf (jenkinsNode [(''baseUrl'', ''https://f.example/''), (''username'', ''a:b''),
                           (''apiKey'', ''k'')] []))
     \<lparr>entityRef = someRef, jobNameOption = None\<rparr>
   = Inr \<lparr>baseUrl = ''https://f.example/'',
          headers = Some [(''Authorization'', ''Basic YTpiOms='')],
          jobName = ''proj-bar''\<rparr> \<and>
   ''Basic '' @ base64Encode (binaryBytes (''a:b'' @ '':'' @ ''k'')) = ''Basic YTpiOms='' \<and>
   readBasicAuthorization ''Basic YTpiOms='' = Some (''a'', ''b:k'') \<and>
   readBasicAuthorization ''Basic YTpiOms='' \<noteq> Some (''a:b'', ''k'')"
  by (simp add: example_defs config_defs instance_defs base64_defs)

end
